theory Spec2Isabelle
  imports Complex_Main
begin

section \<open>Python values used by api.py\<close>

text \<open>
  Strings are \<open>char list\<close>, one \<open>char\<close> for each character of the Python string. The
  fixed messages of api.py are Chinese text; they are written here as their UTF-8 bytes,
  and only their identity matters below.
\<close>

definition msg_login_failed :: string where
  "msg_login_failed =
     [CHR 0xE7, CHR 0x99, CHR 0xBB, CHR 0xE5, CHR 0xBD, CHR 0x95, CHR 0xE5, CHR 0xA4, CHR 0xB1,
      CHR 0xE8, CHR 0xB4, CHR 0xA5, CHR 0xEF, CHR 0xBC, CHR 0x8C, CHR 0xE9, CHR 0x94, CHR 0x99,
      CHR 0xE8, CHR 0xAF, CHR 0xAF, CHR 0xE7, CHR 0xA0, CHR 0x81] @ '': ''"

definition msg_bad_root :: string where
  "msg_bad_root =
     [CHR 0xE4, CHR 0xB8, CHR 0xBB, CHR 0xE7, CHR 0x9B, CHR 0xAE, CHR 0xE5, CHR 0xBD, CHR 0x95,
      CHR 0xE4, CHR 0xB8, CHR 0x8D, CHR 0xE5, CHR 0x90, CHR 0x88, CHR 0xE6, CHR 0xB3, CHR 0x95]"

definition msg_no_file :: string where
  "msg_no_file =
     [CHR 0xE6, CHR 0xB2, CHR 0xA1, CHR 0xE6, CHR 0x9C, CHR 0x89, CHR 0xE6, CHR 0x89, CHR 0xBE,
      CHR 0xE5, CHR 0x88, CHR 0xB0, CHR 0xE5, CHR 0xAF, CHR 0xB9, CHR 0xE5, CHR 0xBA, CHR 0x94,
      CHR 0xE6, CHR 0x96, CHR 0x87, CHR 0xE4, CHR 0xBB, CHR 0xB6]"

definition msg_not_found :: string where
  "msg_not_found =
     [CHR 0xE6, CHR 0xB2, CHR 0xA1, CHR 0xE6, CHR 0x9C, CHR 0x89, CHR 0xE6, CHR 0x89, CHR 0xBE,
      CHR 0xE5, CHR 0x88, CHR 0xB0, CHR 0xE5, CHR 0xAF, CHR 0xB9, CHR 0xE5, CHR 0xBA, CHR 0x94,
      CHR 0xE6, CHR 0x96, CHR 0x87, CHR 0xE4, CHR 0xBB, CHR 0xB6, CHR 0xE5, CHR 0xA4, CHR 0xB9,
      CHR 0xE6, CHR 0x88, CHR 0x96, CHR 0xE6, CHR 0x96, CHR 0x87, CHR 0xE4, CHR 0xBB, CHR 0xB6]"



text \<open>Exceptions, each with the text that \<open>str(e)\<close> gives.\<close>

datatype py_error =
    Exception string
  | TypeError string
  | ValueError string
  | IndexError string
  | AttributeError string
  | KeyError string
  | OverflowError string
  | RuntimeError string
  | UnicodeDecodeError string

fun str_exc :: "py_error \<Rightarrow> string" where
  "str_exc (Exception m) = m"
| "str_exc (TypeError m) = m"
| "str_exc (ValueError m) = m"
| "str_exc (IndexError m) = m"
| "str_exc (AttributeError m) = m"
| "str_exc (KeyError m) = m"
| "str_exc (OverflowError m) = m"
| "str_exc (RuntimeError m) = m"
| "str_exc (UnicodeDecodeError m) = m"

text \<open>\<open>str(i)\<close> for an integer: decimal digits, with a minus sign when negative.\<close>

definition digit_char :: "int \<Rightarrow> char" where
  "digit_char d = ''0123456789'' ! nat d"

function str_digits :: "int \<Rightarrow> string" where
  "str_digits n =
     (if n < 10 then [digit_char n] else str_digits (n div 10) @ [digit_char (n mod 10)])"
  by pat_completeness auto
termination
  by (relation "measure nat") auto

declare str_digits.simps [simp del]

definition str_int :: "int \<Rightarrow> string" where
  "str_int i = (if i < 0 then CHR ''-'' # str_digits (- i) else str_digits i)"

text \<open>\<open>s.split(sep)\<close> for a one-character separator: every piece, the empty ones too.\<close>

fun py_split :: "char \<Rightarrow> string \<Rightarrow> string list" where
  "py_split sep [] = [[]]"
| "py_split sep (c # cs) =
     (if c = sep then [] # py_split sep cs
      else (case py_split sep cs of [] \<Rightarrow> [[c]] | p # ps \<Rightarrow> (c # p) # ps))"

text \<open>The comprehension \<open>[p for p in path.split("/") if p]\<close> of all three path walkers.\<close>

definition path_parts :: "string \<Rightarrow> string list" where
  "path_parts path = filter (\<lambda>p. p \<noteq> []) (py_split CHR ''/'' path)"

text \<open>
  What \<open>json.load\<close> and \<open>request.json\<close> produce. A float is the rational it denotes
  (\<open>NaN\<close> and \<open>Infinity\<close>, which the json module accepts as an extension, are left out).
  An object is its list of members in order; a later member with the same key wins.
\<close>

datatype json =
    JNull
  | JBool bool
  | JInt int
  | JFloat rat
  | JString string
  | JArray "json list"
  | JObject "(string \<times> json) list"

fun truthy :: "json \<Rightarrow> bool" where
  "truthy JNull = False"
| "truthy (JBool b) = b"
| "truthy (JInt i) = (i \<noteq> 0)"
| "truthy (JFloat r) = (r \<noteq> 0)"
| "truthy (JString s) = (s \<noteq> [])"
| "truthy (JArray xs) = (xs \<noteq> [])"
| "truthy (JObject kvs) = (kvs \<noteq> [])"

fun type_name :: "json \<Rightarrow> string" where
  "type_name JNull = ''NoneType''"
| "type_name (JBool b) = ''bool''"
| "type_name (JInt i) = ''int''"
| "type_name (JFloat r) = ''float''"
| "type_name (JString s) = ''str''"
| "type_name (JArray xs) = ''list''"
| "type_name (JObject kvs) = ''dict''"

definition no_attribute :: "string \<Rightarrow> string \<Rightarrow> py_error" where
  "no_attribute ty attr =
     AttributeError ([CHR 0x27] @ ty @ [CHR 0x27] @ '' object has no attribute ''
                       @ [CHR 0x27] @ attr @ [CHR 0x27])"

text \<open>\<open>d.get(key)\<close> and \<open>key in d\<close> on a dict read from JSON.\<close>

definition dict_get :: "(string \<times> json) list \<Rightarrow> string \<Rightarrow> json" where
  "dict_get kvs k = (case map_of (rev kvs) k of None \<Rightarrow> JNull | Some v \<Rightarrow> v)"

definition dict_has :: "(string \<times> json) list \<Rightarrow> string \<Rightarrow> bool" where
  "dict_has kvs k = (k \<in> set (map fst kvs))"

section \<open>Floats: \<open>round(size / unit, 2)\<close> and its \<open>str\<close>\<close>

text \<open>
  A finite double is modelled by the rational it denotes. \<open>to_double\<close> rounds a
  rational \<open>q \<ge> 1\<close> to the nearest double (53 significant bits, ties to even); these
  are the only values \<open>_format_size\<close> produces, since it divides only when
  \<open>size > unit\<close>.
\<close>

definition round_half_even :: "rat \<Rightarrow> int" where
  "round_half_even q =
     (let f = \<lfloor>q\<rfloor>; d = q - of_int f
      in if d < 1 / 2 then f else if 1 / 2 < d then f + 1 else if even f then f else f + 1)"

function bit_length :: "int \<Rightarrow> nat" where
  "bit_length n = (if n \<le> 0 then 0 else Suc (bit_length (n div 2)))"
  by pat_completeness auto
termination
  by (relation "measure nat") auto

declare bit_length.simps [simp del]

definition to_double :: "rat \<Rightarrow> rat" where
  "to_double q =
     (let e = int (bit_length \<lfloor>q\<rfloor>) - 53
      in if 0 \<le> e then of_int (round_half_even (q / 2 ^ nat e)) * 2 ^ nat e
         else of_int (round_half_even (q * 2 ^ nat (- e))) / 2 ^ nat (- e))"

text \<open>
  \<open>a / b\<close> on integers \<open>a \<ge> b > 0\<close>: the correctly rounded quotient, or OverflowError
  when it is beyond the largest double.
\<close>

definition py_truediv :: "int \<Rightarrow> int \<Rightarrow> py_error + rat" where
  "py_truediv a b =
     (let x = to_double (of_int a / of_int b)
      in if 2 ^ 1024 \<le> x
         then Inl (OverflowError ''integer division result too large for a float'')
         else Inr x)"

text \<open>
  \<open>round(x, 2)\<close>: the decimal with two places nearest to the exact value of \<open>x\<close>
  (ties to even), read back as a double.
\<close>

definition py_round2 :: "rat \<Rightarrow> rat" where
  "py_round2 x = to_double (of_int (round_half_even (x * 100)) / 100)"

text \<open>
  \<open>str(x)\<close> of a float \<open>x \<ge> 1\<close>: the shortest digit string that reads back as \<open>x\<close>
  (the nearer one when two have that length), printed positionally with at least one
  decimal while the integer part has at most 16 digits and with an exponent beyond.
\<close>

definition scaled :: "nat \<Rightarrow> nat \<Rightarrow> int \<Rightarrow> rat" where
  "scaled k n c = of_int c * 10 ^ k / 10 ^ n"

definition pick_digits :: "rat \<Rightarrow> nat \<Rightarrow> nat \<Rightarrow> int option" where
  "pick_digits v k n =
     (let s = v * 10 ^ n / 10 ^ k; lo = \<lfloor>s\<rfloor>; hi = \<lceil>s\<rceil>;
          ok_lo = (to_double (scaled k n lo) = v); ok_hi = (to_double (scaled k n hi) = v);
          d_lo = s - of_int lo; d_hi = of_int hi - s
      in if ok_lo \<and> ok_hi then
           Some (if d_lo < d_hi then lo else if d_hi < d_lo then hi
                 else if even lo then lo else hi)
         else if ok_lo then Some lo
         else if ok_hi then Some hi
         else None)"

fun shortest_digits :: "rat \<Rightarrow> nat \<Rightarrow> nat \<Rightarrow> nat \<Rightarrow> (int \<times> nat)" where
  "shortest_digits v k n 0 = (\<lfloor>v * 10 ^ n / 10 ^ k\<rfloor>, n)"
| "shortest_digits v k n (Suc fuel) =
     (case pick_digits v k n of
        Some c \<Rightarrow> (c, n)
      | None \<Rightarrow> shortest_digits v k (Suc n) fuel)"

definition strip_zeros :: "string \<Rightarrow> string" where
  "strip_zeros ds = rev (dropWhile (\<lambda>c. c = CHR ''0'') (rev ds))"

definition py_repr_float :: "rat \<Rightarrow> string" where
  "py_repr_float v =
     (let k = length (str_digits \<lfloor>v\<rfloor>);
          (c, n) = shortest_digits v k 1 17;
          full = str_digits c;
          decpt = k + length full - n;
          ds = strip_zeros full
      in if 16 < decpt then
           take 1 ds @ (if 1 < length ds then CHR ''.'' # drop 1 ds else [])
             @ ''e+'' @ (if decpt - 1 < 10 then ''0'' else []) @ str_digits (int (decpt - 1))
         else if length ds \<le> decpt then ds @ replicate (decpt - length ds) CHR ''0'' @ ''.0''
         else take decpt ds @ CHR ''.'' # drop decpt ds)"

text \<open>The f-string body \<open>{round(size / unit, 2)}\<close>.\<close>

definition fmt_rounded :: "int \<Rightarrow> int \<Rightarrow> py_error + string" where
  "fmt_rounded sz unit =
     (case py_truediv sz unit of
        Inl e \<Rightarrow> Inl e
      | Inr x \<Rightarrow> Inr (py_repr_float (py_round2 x)))"

text \<open>\<open>Pan123API._format_size\<close>.\<close>

definition format_size :: "int \<Rightarrow> py_error + string" where
  "format_size sz =
     (if sz > 1073741824 then
        (case fmt_rounded sz 1073741824 of Inl e \<Rightarrow> Inl e | Inr s \<Rightarrow> Inr (s @ ''GB''))
      else if sz > 1048576 then
        (case fmt_rounded sz 1048576 of Inl e \<Rightarrow> Inl e | Inr s \<Rightarrow> Inr (s @ ''MB''))
      else if sz > 1024 then
        (case fmt_rounded sz 1024 of Inl e \<Rightarrow> Inl e | Inr s \<Rightarrow> Inr (s @ ''KB''))
      else Inr (str_int sz @ ''B''))"

section \<open>The storage client and the session\<close>

text \<open>One entry of a directory listing (\<open>Type = 1\<close> is a folder).\<close>

record item =
  Type :: int
  FileName :: string
  FileId :: int
  Size :: int

text \<open>The fields of the client object \<open>self.pan\<close> that api.py reads and writes.\<close>

record pan =
  user_name :: json
  password :: json
  authorization :: json
  parent_file_id :: int
  pan_list :: "item list"

text \<open>
  Modelled from the spec: the \<open>pan123\<close> client library, which api.py imports and which
  is not part of the source. It is a parameter of every operation: \<open>construct\<close> is the
  constructor call of \<open>login\<close>, \<open>pan_login\<close> the authentication (status code and the
  handle as it leaves it), \<open>children\<close> the directory tree that \<open>get_dir\<close> reads
  (the listing of the directory the cursor \<open>parent_file_id\<close> names), \<open>pan_link\<close> and
  \<open>pan_share\<close> the link and share requests.
\<close>

record backend =
  construct :: "json \<Rightarrow> json \<Rightarrow> json \<Rightarrow> pan"
  pan_login :: "pan \<Rightarrow> int \<times> pan"
  children :: "int \<Rightarrow> item list"
  pan_link :: "pan \<Rightarrow> nat \<Rightarrow> json"
  pan_share :: "pan \<Rightarrow> json \<Rightarrow> py_error + json"

definition get_dir :: "backend \<Rightarrow> pan \<Rightarrow> pan" where
  "get_dir bk p = p\<lparr>pan_list := children bk (parent_file_id p)\<rparr>"

text \<open>The calls made to the client, in order (kept beside the session to state what was called).\<close>

datatype call =
    Construct json json json
  | Login
  | GetDir int
  | Link nat
  | Share json

text \<open>
  The dict \<open>self.config\<close>: its four keys are set by \<open>_load_config\<close> and never removed;
  \<open>cfg_extra\<close> holds any other key an update added.
\<close>

record config =
  cfg_default_path :: json
  cfg_user :: json
  cfg_password :: json
  cfg_authorization :: json
  cfg_extra :: "(json \<times> json) list"

text \<open>
  What \<open>_load_config\<close> finds: no file (\<open>None\<close>), or what \<open>json.load\<close> does with the
  file's content. The settings file itself is either as it was found or the text that
  \<open>json.dump\<close> wrote for a configuration.
\<close>

datatype json_load = Decoded json | JSONDecodeError | NotUtf8 string

datatype settings_file = Found "json_load option" | Dumped config

text \<open>
  The \<open>Pan123API\<close> object together with the global \<open>lock\<close> and the settings file.
  \<open>threading.Lock\<close> is not reentrant: acquiring it while it is held waits until some
  thread releases it.
\<close>

record api =
  config :: config
  pan :: "pan option"
  disk :: settings_file
  lock :: bool
  calls :: "call list"

text \<open>
  Operations that take the lock return \<open>None\<close> when the calling thread never gets past an
  \<open>acquire\<close>. The model follows one request at a time, so the lock is held at an
  \<open>acquire\<close> only when the calling thread itself took it in an enclosing \<open>with lock\<close>
  block; that block is the only place that would release it, and the thread waits for ever.
\<close>

definition acquire :: "api \<Rightarrow> api option" where
  "acquire s = (if lock s then None else Some (s\<lparr>lock := True\<rparr>))"

definition release :: "api \<Rightarrow> api" where
  "release s = s\<lparr>lock := False\<rparr>"

section \<open>Configuration\<close>

definition default_config :: config where
  "default_config =
     \<lparr>cfg_default_path = JString [], cfg_user = JString [], cfg_password = JString [],
      cfg_authorization = JString [], cfg_extra = []\<rparr>"

text \<open>
  \<open>dict.update(other)\<close>: a dict is merged key by key; anything else is iterated as a
  sequence of key/value pairs, each of which must itself be a sequence of length two with
  a hashable first element. Keys compare as in Python (\<open>True == 1 == 1.0\<close>), and an
  existing key keeps its first spelling.
\<close>

fun hashable :: "json \<Rightarrow> bool" where
  "hashable (JArray xs) = False"
| "hashable (JObject kvs) = False"
| "hashable v = True"

fun norm_key :: "json \<Rightarrow> json" where
  "norm_key (JBool b) = JInt (if b then 1 else 0)"
| "norm_key (JFloat r) = (if of_int \<lfloor>r\<rfloor> = r then JInt \<lfloor>r\<rfloor> else JFloat r)"
| "norm_key v = v"

fun extra_update :: "json \<Rightarrow> json \<Rightarrow> (json \<times> json) list \<Rightarrow> (json \<times> json) list" where
  "extra_update k v [] = [(k, v)]"
| "extra_update k v ((k', v') # kvs) =
     (if norm_key k' = norm_key k then (k', v) # kvs else (k', v') # extra_update k v kvs)"

definition set_item :: "config \<Rightarrow> json \<Rightarrow> json \<Rightarrow> config" where
  "set_item c k v =
     (if k = JString ''default-path'' then c\<lparr>cfg_default_path := v\<rparr>
      else if k = JString ''user'' then c\<lparr>cfg_user := v\<rparr>
      else if k = JString ''password'' then c\<lparr>cfg_password := v\<rparr>
      else if k = JString ''authorization'' then c\<lparr>cfg_authorization := v\<rparr>
      else c\<lparr>cfg_extra := extra_update k v (cfg_extra c)\<rparr>)"

definition dict_keys :: "(string \<times> json) list \<Rightarrow> string list" where
  "dict_keys kvs = rev (remdups (rev (map fst kvs)))"

definition element_prefix :: "nat \<Rightarrow> string" where
  "element_prefix i = ''dictionary update sequence element #'' @ str_int (int i)"

fun pair_of :: "nat \<Rightarrow> json \<Rightarrow> py_error + (json \<times> json)" where
  "pair_of i (JString t) =
     (if length t = 2 then Inr (JString [t ! 0], JString [t ! 1])
      else Inl (ValueError (element_prefix i @ '' has length '' @ str_int (int (length t))
                              @ ''; 2 is required'')))"
| "pair_of i (JArray xs) =
     (if length xs = 2 then Inr (xs ! 0, xs ! 1)
      else Inl (ValueError (element_prefix i @ '' has length '' @ str_int (int (length xs))
                              @ ''; 2 is required'')))"
| "pair_of i (JObject kvs) =
     (if length (dict_keys kvs) = 2
      then Inr (JString (dict_keys kvs ! 0), JString (dict_keys kvs ! 1))
      else Inl (ValueError (element_prefix i @ '' has length ''
                              @ str_int (int (length (dict_keys kvs))) @ ''; 2 is required'')))"
| "pair_of i v =
     Inl (TypeError (''cannot convert '' @ element_prefix i @ '' to a sequence''))"

fun update_pairs :: "config \<Rightarrow> nat \<Rightarrow> json list \<Rightarrow> py_error + config" where
  "update_pairs c i [] = Inr c"
| "update_pairs c i (x # xs) =
     (case pair_of i x of
        Inl e \<Rightarrow> Inl e
      | Inr (k, v) \<Rightarrow>
          (if hashable k then update_pairs (set_item c k v) (Suc i) xs
           else Inl (TypeError (''unhashable type: '' @ [CHR 0x27] @ type_name k @ [CHR 0x27]))))"

definition not_iterable :: "json \<Rightarrow> py_error" where
  "not_iterable v =
     TypeError ([CHR 0x27] @ type_name v @ [CHR 0x27] @ '' object is not iterable'')"

fun dict_update :: "config \<Rightarrow> json \<Rightarrow> py_error + config" where
  "dict_update c (JObject kvs) = Inr (fold (\<lambda>(k, v) c'. set_item c' (JString k) v) kvs c)"
| "dict_update c (JArray xs) = update_pairs c 0 xs"
| "dict_update c (JString t) = update_pairs c 0 (map (\<lambda>ch. JString [ch]) t)"
| "dict_update c v = Inl (not_iterable v)"

text \<open>
  \<open>Pan123API._load_config\<close>: the defaults, updated with the decoded file when there is
  one; only \<open>json.JSONDecodeError\<close> is caught.
\<close>

definition load_config :: "json_load option \<Rightarrow> py_error + config" where
  "load_config file =
     (case file of
        None \<Rightarrow> Inr default_config
      | Some JSONDecodeError \<Rightarrow> Inr default_config
      | Some (NotUtf8 m) \<Rightarrow> Inl (UnicodeDecodeError m)
      | Some (Decoded v) \<Rightarrow> dict_update default_config v)"

text \<open>\<open>Pan123API._save_config\<close>.\<close>

definition save_config :: "api \<Rightarrow> (py_error + unit) \<times> api" where
  "save_config s =
     (case pan s of
        None \<Rightarrow> (Inl (no_attribute ''NoneType'' ''user_name''), s)
      | Some p \<Rightarrow>
          (let c = (config s)\<lparr>cfg_user := user_name p, cfg_password := password p,
                               cfg_authorization := authorization p\<rparr>
           in (Inr (), s\<lparr>config := c, disk := Dumped c\<rparr>)))"

section \<open>Path resolution and listing\<close>

text \<open>\<open>Pan123API._find_folder_by_name\<close>.\<close>

definition find_folder_by_name ::
  "backend \<Rightarrow> api \<Rightarrow> int \<Rightarrow> string \<Rightarrow> (py_error + item option) \<times> api" where
  "find_folder_by_name bk s parent_id name =
     (case pan s of
        None \<Rightarrow> (Inl (no_attribute ''NoneType'' ''parent_file_id''), s)
      | Some p \<Rightarrow>
          (let p' = get_dir bk (p\<lparr>parent_file_id := parent_id\<rparr>);
               s' = s\<lparr>pan := Some p', calls := calls s @ [GetDir parent_id]\<rparr>
           in (Inr (find (\<lambda>item. Type item = 1 \<and> FileName item = name) (pan_list p')), s')))"

text \<open>
  The loop \<open>for part in ...: dir_info = self._find_folder_by_name(current_id, part) ...\<close>
  that \<open>list_folder\<close>, \<open>parsing\<close> and \<open>_validate_default_path\<close> each contain; \<open>Inr None\<close>
  is the exit at \<open>if not dir_info\<close>, which each caller turns into its own error.
\<close>

fun walk :: "backend \<Rightarrow> api \<Rightarrow> int \<Rightarrow> string list \<Rightarrow> (py_error + int option) \<times> api" where
  "walk bk s current_id [] = (Inr (Some current_id), s)"
| "walk bk s current_id (part # parts) =
     (case find_folder_by_name bk s current_id part of
        (Inl e, s') \<Rightarrow> (Inl e, s')
      | (Inr None, s') \<Rightarrow> (Inr None, s')
      | (Inr (Some dir_info), s') \<Rightarrow> walk bk s' (FileId dir_info) parts)"

text \<open>The loop body of \<open>Pan123API.list\<close>: folders and files, each in listing order.\<close>

fun list_entries :: "item list \<Rightarrow> py_error + (json list \<times> json list)" where
  "list_entries [] = Inr ([], [])"
| "list_entries (it # rest) =
     (if Type it = 1 then
        (case list_entries rest of
           Inl e \<Rightarrow> Inl e
         | Inr (folders, files) \<Rightarrow>
             Inr (JObject [(''id'', JString (str_int (FileId it))),
                           (''name'', JString (FileName it))] # folders, files))
      else
        (case format_size (Size it) of
           Inl e \<Rightarrow> Inl e
         | Inr sz \<Rightarrow>
             (case list_entries rest of
                Inl e \<Rightarrow> Inl e
              | Inr (folders, files) \<Rightarrow>
                  Inr (folders,
                       JObject [(''id'', JString (str_int (FileId it))),
                                (''name'', JString (FileName it)),
                                (''size'', JString sz)] # files))))"

text \<open>\<open>Pan123API.list\<close>.\<close>

definition api_list ::
  "backend \<Rightarrow> api \<Rightarrow> ((py_error + (string \<times> json) list) \<times> api) option" where
  "api_list bk s =
     (case acquire s of
        None \<Rightarrow> None
      | Some s0 \<Rightarrow>
          (case pan s0 of
             None \<Rightarrow> Some (Inl (no_attribute ''NoneType'' ''get_dir''), release s0)
           | Some p \<Rightarrow>
               (let p' = get_dir bk p;
                    s1 = s0\<lparr>pan := Some p', calls := calls s0 @ [GetDir (parent_file_id p)]\<rparr>
                in (case list_entries (pan_list p') of
                      Inl e \<Rightarrow> Some (Inl e, release s1)
                    | Inr (folders, files) \<Rightarrow>
                        Some (Inr [(''folder'', JArray folders), (''file'', JArray files)],
                              release s1)))))"

text \<open>
  \<open>Pan123API.list_folder\<close>. Were \<open>list\<close> to return, it would have released the lock, and
  the exit of the outer \<open>with\<close> block would release an unlocked lock, a RuntimeError.
\<close>

definition list_folder ::
  "backend \<Rightarrow> api \<Rightarrow> string \<Rightarrow> ((py_error + (string \<times> json) list) \<times> api) option" where
  "list_folder bk s path =
     (case acquire s of
        None \<Rightarrow> None
      | Some s0 \<Rightarrow>
          (case pan s0 of
             None \<Rightarrow> Some (Inl (no_attribute ''NoneType'' ''parent_file_id''), release s0)
           | Some p \<Rightarrow>
               (case walk bk s0 (parent_file_id p) (path_parts path) of
                  (Inl e, s1) \<Rightarrow> Some (Inl e, release s1)
                | (Inr None, s1) \<Rightarrow>
                    Some (Inr [(''error'', JString msg_not_found)], release s1)
                | (Inr (Some current_id), s1) \<Rightarrow>
                    (case pan s1 of
                       None \<Rightarrow> Some (Inl (no_attribute ''NoneType'' ''parent_file_id''), release s1)
                     | Some p1 \<Rightarrow>
                         (let p2 = get_dir bk (p1\<lparr>parent_file_id := current_id\<rparr>);
                              s2 = s1\<lparr>pan := Some p2, calls := calls s1 @ [GetDir current_id]\<rparr>
                          in (case api_list bk s2 of
                                None \<Rightarrow> None
                              | Some (r, s3) \<Rightarrow>
                                  (if lock s3 then Some (r, release s3)
                                   else Some (Inl (RuntimeError ''release unlocked lock''),
                                              s3))))))))"

text \<open>The scan \<open>for idx, item in enumerate(self.pan.list)\<close> of \<open>parsing\<close>.\<close>

fun find_file :: "item list \<Rightarrow> string \<Rightarrow> nat \<Rightarrow> nat option" where
  "find_file [] file_name idx = None"
| "find_file (it # rest) file_name idx =
     (if Type it \<noteq> 1 \<and> FileName it = file_name then Some idx
      else find_file rest file_name (Suc idx))"

text \<open>\<open>Pan123API.parsing\<close>.\<close>

definition parsing ::
  "backend \<Rightarrow> api \<Rightarrow> string \<Rightarrow> ((py_error + (string \<times> json) list) \<times> api) option" where
  "parsing bk s file_path =
     (case acquire s of
        None \<Rightarrow> None
      | Some s0 \<Rightarrow>
          (case pan s0 of
             None \<Rightarrow> Some (Inl (no_attribute ''NoneType'' ''parent_file_id''), release s0)
           | Some p \<Rightarrow>
               (case walk bk s0 (parent_file_id p) (butlast (path_parts file_path)) of
                  (Inl e, s1) \<Rightarrow> Some (Inl e, release s1)
                | (Inr None, s1) \<Rightarrow>
                    Some (Inr [(''error'', JString msg_not_found)], release s1)
                | (Inr (Some current_id), s1) \<Rightarrow>
                    (case pan s1 of
                       None \<Rightarrow> Some (Inl (no_attribute ''NoneType'' ''parent_file_id''), release s1)
                     | Some p1 \<Rightarrow>
                         (let p2 = get_dir bk (p1\<lparr>parent_file_id := current_id\<rparr>);
                              s2 = s1\<lparr>pan := Some p2, calls := calls s1 @ [GetDir current_id]\<rparr>
                          in if path_parts file_path = [] then
                               Some (Inl (IndexError ''list index out of range''), release s2)
                             else
                               (case find_file (pan_list p2) (last (path_parts file_path)) 0 of
                                  Some idx \<Rightarrow>
                                    Some (Inr [(''url'', pan_link bk p2 idx)],
                                          release (s2\<lparr>calls := calls s2 @ [Link idx]\<rparr>))
                                | None \<Rightarrow>
                                    Some (Inr [(''error'', JString msg_no_file)], release s2)))))))"

section \<open>Session\<close>

text \<open>\<open>Pan123API._validate_default_path\<close>.\<close>

definition validate_default_path :: "backend \<Rightarrow> api \<Rightarrow> (py_error + unit) \<times> api" where
  "validate_default_path bk s =
     (let dp = cfg_default_path (config s)
      in if \<not> truthy dp then (Inr (), s)
         else (case dp of
                 JString path \<Rightarrow>
                   (case walk bk s 0 (path_parts path) of
                      (Inl e, s') \<Rightarrow> (Inl e, s')
                    | (Inr None, s') \<Rightarrow> (Inl (Exception msg_bad_root), s')
                    | (Inr (Some current_dir), s') \<Rightarrow> (Inr (), s'))
               | _ \<Rightarrow> (Inl (no_attribute (type_name dp) ''split''), s)))"

text \<open>\<open>Pan123API.login\<close>.\<close>

definition login :: "backend \<Rightarrow> api \<Rightarrow> ((py_error + unit) \<times> api) option" where
  "login bk s =
     (case acquire s of
        None \<Rightarrow> None
      | Some s0 \<Rightarrow>
          (let c = config s0;
               p = construct bk (cfg_user c) (cfg_password c) (cfg_authorization c);
               s1 = s0\<lparr>pan := Some p,
                       calls := calls s0
                         @ [Construct (cfg_user c) (cfg_password c) (cfg_authorization c)]\<rparr>;
               (login_code, p') = pan_login bk p;
               s2 = s1\<lparr>pan := Some p', calls := calls s1 @ [Login]\<rparr>
           in if login_code \<noteq> 200 then
                Some (Inl (Exception (msg_login_failed @ str_int login_code)), release s2)
              else
                (let s3 = s2\<lparr>config := (config s2)\<lparr>cfg_authorization := authorization p'\<rparr>\<rparr>
                 in (case save_config s3 of
                       (Inl e, s4) \<Rightarrow> Some (Inl e, release s4)
                     | (Inr u, s4) \<Rightarrow>
                         (case validate_default_path bk s4 of
                            (r, s5) \<Rightarrow> Some (r, release s5))))))"

text \<open>
  \<open>Pan123API.__init__\<close>, run once when the module is loaded (\<open>api = Pan123API()\<close>): an
  exception here ends the process before it serves anything.
\<close>

definition init :: "backend \<Rightarrow> json_load option \<Rightarrow> (py_error + api) option" where
  "init bk file =
     (case load_config file of
        Inl e \<Rightarrow> Some (Inl e)
      | Inr c \<Rightarrow>
          (case login bk \<lparr>config = c, pan = None, disk = Found file, lock = False, calls = []\<rparr> of
             None \<Rightarrow> None
           | Some (Inl e, s) \<Rightarrow> Some (Inl e)
           | Some (Inr u, s) \<Rightarrow> Some (Inr s)))"





section \<open>HTTP handlers\<close>

record response =
  status :: int
  body :: json

text \<open>
  The shape shared by \<open>list_subfolder\<close> and \<open>get_download_link\<close>: 404 when the result
  has the key \<open>error\<close>, 200 otherwise, 500 with \<open>str(e)\<close> on an exception.
\<close>

definition respond_404 :: "(py_error + (string \<times> json) list) \<Rightarrow> response" where
  "respond_404 r =
     (case r of
        Inl e \<Rightarrow> \<lparr>status = 500, body = JObject [(''error'', JString (str_exc e))]\<rparr>
      | Inr result \<Rightarrow>
          \<lparr>status = (if dict_has result ''error'' then 404 else 200), body = JObject result\<rparr>)"

text \<open>The handler \<open>list_files\<close> of \<open>GET /api/list\<close>.\<close>

definition list_files :: "backend \<Rightarrow> api \<Rightarrow> (response \<times> api) option" where
  "list_files bk s =
     (case api_list bk s of
        None \<Rightarrow> None
      | Some (Inl e, s') \<Rightarrow>
          Some (\<lparr>status = 500, body = JObject [(''error'', JString (str_exc e))]\<rparr>, s')
      | Some (Inr result, s') \<Rightarrow> Some (\<lparr>status = 200, body = JObject result\<rparr>, s'))"

text \<open>The handler \<open>list_subfolder\<close> of \<open>GET /api/list/<path>\<close>.\<close>

definition list_subfolder :: "backend \<Rightarrow> api \<Rightarrow> string \<Rightarrow> (response \<times> api) option" where
  "list_subfolder bk s sub_path =
     (case list_folder bk s sub_path of
        None \<Rightarrow> None
      | Some (r, s') \<Rightarrow> Some (respond_404 r, s'))"

text \<open>The handler \<open>get_download_link\<close> of \<open>GET /api/parsing/<path>\<close>.\<close>

definition get_download_link :: "backend \<Rightarrow> api \<Rightarrow> string \<Rightarrow> (response \<times> api) option" where
  "get_download_link bk s file_path =
     (case parsing bk s file_path of
        None \<Rightarrow> None
      | Some (r, s') \<Rightarrow> Some (respond_404 r, s'))"

text \<open>
  The handlers of the two POST routes begin with \<open>data = request.json\<close> and
  \<open>data.get(...)\<close>, both outside the \<open>try\<close>. \<open>request_json\<close> is what the property
  gives: the exception it raises for a request without a JSON body, or the decoded body,
  which is any JSON value. \<open>data.get\<close> exists on a dict only; on any other value it raises
  AttributeError. An exception that leaves a handler is \<open>Inl\<close>.
\<close>

text \<open>The handler \<open>login\<close> of \<open>POST /api/login\<close>.\<close>

definition login_handler ::
  "backend \<Rightarrow> api \<Rightarrow> py_error + json \<Rightarrow> ((py_error + response) \<times> api) option" where
  "login_handler bk s request_json =
     (case request_json of
        Inl e \<Rightarrow> Some (Inl e, s)
      | Inr (JObject data) \<Rightarrow>
          (let username = dict_get data ''username'';
               password = dict_get data ''password'';
               saved =
                 (if truthy username \<and> truthy password then
                    save_config (s\<lparr>config := (config s)\<lparr>cfg_user := username,
                                                          cfg_password := password\<rparr>\<rparr>)
                  else (Inr (), s))
           in (case saved of
                 (Inl e, s1) \<Rightarrow> Some (Inl e, s1)
               | (Inr u, s1) \<Rightarrow>
                   (case login bk s1 of
                      None \<Rightarrow> None
                    | Some (Inl e, s2) \<Rightarrow>
                        Some (Inr \<lparr>status = 401,
                                   body = JObject [(''error'', JString (str_exc e))]\<rparr>, s2)
                    | Some (Inr u', s2) \<Rightarrow>
                        Some (Inr \<lparr>status = 200,
                                   body = JObject [(''status'', JString ''success'')]\<rparr>, s2))))
      | Inr data \<Rightarrow> Some (Inl (no_attribute (type_name data) ''get''), s))"


section \<open>The tree a walk follows\<close>

text \<open>
  The Path Resolver in the words of the specification: from a starting directory, each
  segment must name a folder child of the current directory (first match, exact name),
  which becomes the current directory; the result is the directory reached, or nothing.
\<close>

fun resolve :: "(int \<Rightarrow> item list) \<Rightarrow> int \<Rightarrow> string list \<Rightarrow> int option" where
  "resolve tree d [] = Some d"
| "resolve tree d (part # parts) =
     (case find (\<lambda>it. Type it = 1 \<and> FileName it = part) (tree d) of
        None \<Rightarrow> None
      | Some it \<Rightarrow> resolve tree (FileId it) parts)"

text \<open>The directories such a resolution lists, in order: one per segment it looks at.\<close>

fun visited :: "(int \<Rightarrow> item list) \<Rightarrow> int \<Rightarrow> string list \<Rightarrow> int list" where
  "visited tree d [] = []"
| "visited tree d (part # parts) =
     d # (case find (\<lambda>it. Type it = 1 \<and> FileName it = part) (tree d) of
            None \<Rightarrow> []
          | Some it \<Rightarrow> visited tree (FileId it) parts)"

text \<open>The authorization token that the settings file holds, when it holds one.\<close>

fun persisted_authorization :: "settings_file \<Rightarrow> json option" where
  "persisted_authorization (Dumped c) = Some (cfg_authorization c)"
| "persisted_authorization (Found (Some (Decoded (JObject kvs)))) =
     (if dict_has kvs ''authorization'' then Some (dict_get kvs ''authorization'') else None)"
| "persisted_authorization (Found other) = None"

section \<open>A small account to run the operations on\<close>

text \<open>
  The root (0) holds the folder \<open>a\<close> (1) and a file; \<open>a\<close> holds the folder \<open>b\<close> (2)
  and the file \<open>f.txt\<close>; \<open>b\<close> is empty.
\<close>

definition demo_tree :: "int \<Rightarrow> item list" where
  "demo_tree d =
     (if d = 0 then
        [\<lparr>Type = 1, FileName = ''a'', FileId = 1, Size = 0\<rparr>,
         \<lparr>Type = 0, FileName = ''top.txt'', FileId = 9, Size = 1025\<rparr>]
      else if d = 1 then
        [\<lparr>Type = 1, FileName = ''b'', FileId = 2, Size = 0\<rparr>,
         \<lparr>Type = 0, FileName = ''f.txt'', FileId = 10, Size = 1024\<rparr>]
      else [])"

text \<open>
  A client whose service rejects every sign-in with status 401 and which then drops the
  token it was given.
\<close>

definition demo_backend :: backend where
  "demo_backend =
     \<lparr>construct = (\<lambda>u pw a. \<lparr>user_name = u, password = pw, authorization = a,
                              parent_file_id = 0, pan_list = []\<rparr>),
      pan_login = (\<lambda>p. (401, p\<lparr>authorization := JString []\<rparr>)),
      children = demo_tree,
      pan_link = (\<lambda>p idx. JString ''https://example.invalid/download''),
      pan_share = (\<lambda>p file_id. Inr (JObject [(''code'', JInt 200),
                     (''data'', JObject [(''shareUrl'', JString ''https://example.invalid/s'')])]))\<rparr>"

text \<open>
  The session as a successful login and a listing of the root leave it: the handle, the
  configuration and the settings file all carry the token \<open>T1\<close>.
\<close>

definition demo_config :: config where
  "demo_config =
     \<lparr>cfg_default_path = JString [], cfg_user = JString ''u'', cfg_password = JString ''pw'',
      cfg_authorization = JString ''T1'', cfg_extra = []\<rparr>"

definition demo_pan :: pan where
  "demo_pan =
     \<lparr>user_name = JString ''u'', password = JString ''pw'', authorization = JString ''T1'',
      parent_file_id = 0, pan_list = demo_tree 0\<rparr>"

definition demo_api :: api where
  "demo_api =
     \<lparr>config = demo_config, pan = Some demo_pan, disk = Dumped demo_config, lock = False,
      calls = []\<rparr>"

text \<open>
  The status the client returns, and the handle it leaves, when \<open>login\<close> runs with
  the configuration \<open>c\<close>.
\<close>

definition attempt_status :: "backend \<Rightarrow> config \<Rightarrow> int" where
  "attempt_status bk c =
     fst (pan_login bk (construct bk (cfg_user c) (cfg_password c) (cfg_authorization c)))"

definition attempt_handle :: "backend \<Rightarrow> config \<Rightarrow> pan" where
  "attempt_handle bk c =
     snd (pan_login bk (construct bk (cfg_user c) (cfg_password c) (cfg_authorization c)))"

text \<open>The dict that \<open>Pan123API.list\<close> returns for a listing.\<close>

definition listing_of :: "item list \<Rightarrow> py_error + (string \<times> json) list" where
  "listing_of items =
     (case list_entries items of
        Inl e \<Rightarrow> Inl e
      | Inr (folders, files) \<Rightarrow> Inr [(''folder'', JArray folders), (''file'', JArray files)])"

section \<open>Properties of the walk\<close>

lemma find_folder_by_name_Some:
  "pan s = Some p \<Longrightarrow>
   find_folder_by_name bk s d name =
     (Inr (find (\<lambda>it. Type it = 1 \<and> FileName it = name) (children bk d)),
      s\<lparr>pan := Some (p\<lparr>parent_file_id := d, pan_list := children bk d\<rparr>),
        calls := calls s @ [GetDir d]\<rparr>)"
  by (simp add: find_folder_by_name_def get_dir_def)

lemma find_folder_by_name_None:
  "pan s = None \<Longrightarrow>
   find_folder_by_name bk s d name = (Inl (no_attribute ''NoneType'' ''parent_file_id''), s)"
  by (simp add: find_folder_by_name_def)

lemma walk_result:
  "pan s \<noteq> None \<Longrightarrow> fst (walk bk s d parts) = Inr (resolve (children bk) d parts)"
proof (induction parts arbitrary: s d)
  case Nil
  then show ?case by simp
next
  case (Cons part parts)
  then obtain p where p: "pan s = Some p" by auto
  show ?case
    using Cons.IH p
    by (simp add: find_folder_by_name_Some split: option.splits)
qed

lemma walk_frame:
  "lock (snd (walk bk s d parts)) = lock s \<and> config (snd (walk bk s d parts)) = config s
   \<and> disk (snd (walk bk s d parts)) = disk s"
proof (induction parts arbitrary: s d)
  case Nil
  then show ?case by simp
next
  case (Cons part parts)
  show ?case
  proof (cases "pan s")
    case None
    then show ?thesis by (simp add: find_folder_by_name_None)
  next
    case (Some p)
    then show ?thesis
      using Cons.IH
      by (simp add: find_folder_by_name_Some split: option.splits)
  qed
qed

lemma walk_calls:
  "pan s \<noteq> None \<Longrightarrow>
   calls (snd (walk bk s d parts)) = calls s @ map GetDir (visited (children bk) d parts)"
proof (induction parts arbitrary: s d)
  case Nil
  then show ?case by simp
next
  case (Cons part parts)
  then obtain p where p: "pan s = Some p" by auto
  show ?case
    using Cons.IH p
    by (simp add: find_folder_by_name_Some split: option.splits)
qed

lemma walk_pan:
  "pan s = Some p \<Longrightarrow>
   pan (snd (walk bk s d parts)) =
     (if parts = [] then Some p
      else Some (p\<lparr>parent_file_id := last (visited (children bk) d parts),
                   pan_list := children bk (last (visited (children bk) d parts))\<rparr>))"
proof (induction parts arbitrary: s d p)
  case Nil
  then show ?case by simp
next
  case (Cons part parts)
  show ?case
  proof (cases "find (\<lambda>it. Type it = 1 \<and> FileName it = part) (children bk d)")
    case None
    then show ?thesis using Cons.prems
      by (simp add: find_folder_by_name_Some)
  next
    case (Some it)
    then show ?thesis using Cons.prems Cons.IH
      apply (simp add: find_folder_by_name_Some)
      apply (cases parts)
      apply simp_all
      done
  qed
qed

lemma walk_pan_None: "pan s = None \<Longrightarrow> snd (walk bk s d parts) = s"
  by (cases parts) (simp_all add: find_folder_by_name_None)

lemma api_list_blocked: "lock s \<Longrightarrow> api_list bk s = None"
  by (simp add: api_list_def acquire_def)

text \<open>
  When the first \<open>k\<close> segments resolve and the next one names no folder, the walk
  fails, has listed exactly \<open>k + 1\<close> directories, and the last of them is the one the
  first \<open>k\<close> segments lead to.
\<close>

lemma resolve_prefix_fails:
  "k < length parts \<Longrightarrow> resolve tree d (take k parts) = Some d' \<Longrightarrow>
   find (\<lambda>it. Type it = 1 \<and> FileName it = parts ! k) (tree d') = None \<Longrightarrow>
   resolve tree d parts = None
   \<and> visited tree d parts = visited tree d (take (Suc k) parts)
   \<and> length (visited tree d parts) = Suc k
   \<and> last (visited tree d parts) = d'"
proof (induction k arbitrary: d parts)
  case 0
  then obtain x xs where "parts = x # xs" by (cases parts) auto
  with 0 show ?case by simp
next
  case (Suc k)
  then obtain x xs where px: "parts = x # xs" by (cases parts) auto
  with Suc.prems obtain it where
    it: "find (\<lambda>it. Type it = 1 \<and> FileName it = x) (tree d) = Some it"
    and r: "resolve tree (FileId it) (take k xs) = Some d'"
    by (auto split: option.splits)
  have k: "k < length xs" using Suc.prems px by simp
  have f: "find (\<lambda>it. Type it = 1 \<and> FileName it = xs ! k) (tree d') = None"
    using Suc.prems px by simp
  from Suc.IH [OF k r f] have
    A: "resolve tree (FileId it) xs = None" and
    B: "visited tree (FileId it) xs = visited tree (FileId it) (take (Suc k) xs)" and
    C: "length (visited tree (FileId it) xs) = Suc k" and
    D: "last (visited tree (FileId it) xs) = d'"
    by blast+
  from C have ne: "visited tree (FileId it) xs \<noteq> []" by auto
  have "resolve tree d parts = None" using px it A by simp
  moreover have "visited tree d parts = visited tree d (take (Suc (Suc k)) parts)"
    using px it B by simp
  moreover have "length (visited tree d parts) = Suc (Suc k)" using px it C by simp
  moreover have "last (visited tree d parts) = d'" using px it D ne by simp
  ultimately show ?case by blast
qed

lemma demo_parts [simp]:
  "path_parts ''a/b'' = [''a'', ''b'']" "path_parts ''a/x/b'' = [''a'', ''x'', ''b'']"
  "path_parts ''a/f.txt'' = [''a'', ''f.txt'']" "path_parts ''///'' = []" "path_parts [] = []"
  by (simp_all add: path_parts_def)

lemma walk_eq:
  "pan s = Some p \<Longrightarrow>
   walk bk s d parts =
     (Inr (resolve (children bk) d parts),
      if parts = [] then s
      else s\<lparr>pan := Some (p\<lparr>parent_file_id := last (visited (children bk) d parts),
                            pan_list := children bk (last (visited (children bk) d parts))\<rparr>),
             calls := calls s @ map GetDir (visited (children bk) d parts)\<rparr>)"
proof (induction parts arbitrary: s d p)
  case Nil
  then show ?case by simp
next
  case (Cons part parts)
  show ?case
  proof (cases "find (\<lambda>it. Type it = 1 \<and> FileName it = part) (children bk d)")
    case None
    then show ?thesis using Cons.prems by (simp add: find_folder_by_name_Some)
  next
    case (Some it)
    let ?p1 = "p\<lparr>parent_file_id := d, pan_list := children bk d\<rparr>"
    let ?s1 = "s\<lparr>pan := Some ?p1, calls := calls s @ [GetDir d]\<rparr>"
    have "pan ?s1 = Some ?p1" by simp
    from Cons.IH [OF this, of "FileId it"] Some Cons.prems show ?thesis
      by (cases parts) (simp_all add: find_folder_by_name_Some)
  qed
qed

lemma walk_not_found:
  assumes "pan s = Some p" "k < length parts"
    and "resolve (children bk) d (take k parts) = Some d'"
    and "find (\<lambda>it. Type it = 1 \<and> FileName it = parts ! k) (children bk d') = None"
  shows "walk bk s d parts =
           (Inr None,
            s\<lparr>pan := Some (p\<lparr>parent_file_id := d', pan_list := children bk d'\<rparr>),
              calls := calls s @ map GetDir (visited (children bk) d (take (Suc k) parts))\<rparr>)"
proof -
  from resolve_prefix_fails [OF assms(2,3,4)] have
    A: "resolve (children bk) d parts = None" and
    B: "visited (children bk) d parts = visited (children bk) d (take (Suc k) parts)" and
    D: "last (visited (children bk) d parts) = d'"
    by blast+
  have ne: "parts \<noteq> []" using assms(2) by auto
  show ?thesis
    using walk_eq [OF assms(1), of bk d parts] A D ne B by simp
qed

lemma visited_length_prefix:
  "k < length parts \<Longrightarrow> resolve tree d (take k parts) = Some d' \<Longrightarrow>
   find (\<lambda>it. Type it = 1 \<and> FileName it = parts ! k) (tree d') = None \<Longrightarrow>
   length (visited tree d (take (Suc k) parts)) = Suc k"
proof -
  assume a: "k < length parts" "resolve tree d (take k parts) = Some d'"
    "find (\<lambda>it. Type it = 1 \<and> FileName it = parts ! k) (tree d') = None"
  from resolve_prefix_fails [OF a] have
    B: "visited tree d parts = visited tree d (take (Suc k) parts)" and
    C: "length (visited tree d parts) = Suc k"
    by blast+
  show ?thesis using C by (simp only: B)
qed

lemma api_list_free:
  "pan s = Some p \<Longrightarrow> \<not> lock s \<Longrightarrow>
   map_option fst (api_list bk s) = Some (listing_of (children bk (parent_file_id p)))"
  by (simp add: api_list_def acquire_def get_dir_def listing_of_def
           split: sum.splits prod.splits)



lemma empty_path_general:
  assumes "path_parts path = []" "pan s = Some p" "\<not> lock s"
  shows "list_folder bk s path = None"
    and "\<exists>s'. parsing bk s path = Some (Inl (IndexError ''list index out of range''), s')
            \<and> map_option parent_file_id (pan s') = Some (parent_file_id p)"
  using assms
  by (simp_all add: list_folder_def parsing_def acquire_def release_def get_dir_def
        api_list_blocked)

lemma walk_after_walk: "pan s \<noteq> None \<Longrightarrow> pan (snd (walk bk s d parts)) \<noteq> None"
  using walk_pan [of s _ bk d parts] by auto

lemma login_failure:
  assumes "\<not> lock s" and "attempt_status bk (config s) \<noteq> 200"
  shows "login bk s =
           Some (Inl (Exception (msg_login_failed @ str_int (attempt_status bk (config s)))),
                 s\<lparr>pan := Some (attempt_handle bk (config s)),
                   calls := calls s @ [Construct (cfg_user (config s)) (cfg_password (config s))
                                         (cfg_authorization (config s)), Login]\<rparr>)"
proof -
  obtain code p' where pl:
    "pan_login bk (construct bk (cfg_user (config s)) (cfg_password (config s))
       (cfg_authorization (config s))) = (code, p')"
    by (cases "pan_login bk (construct bk (cfg_user (config s)) (cfg_password (config s))
                 (cfg_authorization (config s)))")
  have c: "code \<noteq> 200" "attempt_status bk (config s) = code"
    "attempt_handle bk (config s) = p'"
    using assms(2) pl by (simp_all add: attempt_status_def attempt_handle_def)
  show ?thesis
    using assms(1) pl c
    by (cases s) (simp add: login_def acquire_def release_def Let_def)
qed

lemma str_int_401: "str_int 401 = ''401''"
  by code_simp

lemma demo_attempt:
  "attempt_status demo_backend demo_config = 401"
  "attempt_handle demo_backend demo_config =
     \<lparr>user_name = JString ''u'', password = JString ''pw'', authorization = JString [],
      parent_file_id = 0, pan_list = []\<rparr>"
  by (simp_all add: attempt_status_def attempt_handle_def demo_backend_def demo_config_def)

lemma demo_status: "attempt_status demo_backend c = 401"
  by (simp add: attempt_status_def demo_backend_def)

lemma demo_fields:
  "config demo_api = demo_config" "pan demo_api = Some demo_pan" "lock demo_api = False"
  "disk demo_api = Dumped demo_config" "calls demo_api = []"
  by (simp_all add: demo_api_def)

lemma demo_saved:
  "user_name demo_pan = JString ''u''" "password demo_pan = JString ''pw''"
  "authorization demo_pan = JString ''T1''"
  "demo_config\<lparr>cfg_user := JString ''u'', cfg_password := JString ''pw'',
                 cfg_authorization := JString ''T1''\<rparr> = demo_config"
  "cfg_user demo_config = JString ''u''" "cfg_password demo_config = JString ''pw''"
  "cfg_authorization demo_config = JString ''T1''"
  by (simp_all add: demo_config_def demo_pan_def)

text \<open>Rounding to a double: exact quotients, and bounds on the rounded value.\<close>

lemma round_half_even_of_int: "round_half_even (of_int z) = z"
  by (simp add: round_half_even_def)

lemma round_half_even_bounds:
  "q - 1 / 2 \<le> of_int (round_half_even q)" "of_int (round_half_even q) \<le> q + 1 / 2"
proof -
  have f: "of_int \<lfloor>q\<rfloor> \<le> q" "q < of_int \<lfloor>q\<rfloor> + 1" by linarith+
  show "q - 1 / 2 \<le> of_int (round_half_even q)"
    using f by (simp add: round_half_even_def Let_def) linarith?
  show "of_int (round_half_even q) \<le> q + 1 / 2"
    using f by (simp add: round_half_even_def Let_def) linarith?
qed

lemma bit_length_le: "n < 2 ^ j \<Longrightarrow> bit_length n \<le> j"
proof (induction j arbitrary: n)
  case 0
  then show ?case by (simp add: bit_length.simps [of n])
next
  case (Suc j)
  show ?case
  proof (cases "n \<le> 0")
    case True
    then show ?thesis by (simp add: bit_length.simps [of n])
  next
    case False
    have "n div 2 < 2 ^ j" using Suc.prems by simp
    from Suc.IH [OF this] False show ?thesis by (simp add: bit_length.simps [of n])
  qed
qed

lemma bit_length_lower: "0 < n \<Longrightarrow> 2 ^ (bit_length n - 1) \<le> n"
proof (induction n rule: bit_length.induct)
  case (1 n)
  show ?case
  proof (cases "n div 2 \<le> 0")
    case True
    then have "bit_length (n div 2) = 0" by (simp add: bit_length.simps [of "n div 2"])
    then show ?thesis using "1.prems" by (simp add: bit_length.simps [of n])
  next
    case False
    then have pos: "0 < n div 2" by simp
    have n: "\<not> n \<le> 0" using "1.prems" by simp
    from "1.IH" [OF n pos] have ih: "2 ^ (bit_length (n div 2) - 1) \<le> n div 2" .
    have bl: "bit_length (n div 2) = Suc (bit_length (n div 2) - 1)"
      using pos by (simp add: bit_length.simps [of "n div 2"])
    have "bit_length n - 1 = bit_length (n div 2)"
      using n by (simp add: bit_length.simps [of n])
    then have "(2::int) ^ (bit_length n - 1) = 2 * 2 ^ (bit_length (n div 2) - 1)"
      using bl by (metis power_Suc)
    also have "\<dots> \<le> 2 * (n div 2)" using ih by simp
    also have "\<dots> \<le> n" by simp
    finally show ?thesis .
  qed
qed

lemma to_double_exact:
  assumes "0 \<le> b" "b < 2 ^ 53" "1 \<le> k" "k \<le> 53"
  shows "to_double (of_int b / 2 ^ k) = of_int b / 2 ^ k"
proof -
  let ?q = "of_int b / 2 ^ k :: rat"
  have fl: "\<lfloor>?q\<rfloor> = b div 2 ^ k"
    using floor_divide_of_int_eq [of b "2 ^ k", where ?'a = rat] by simp
  have "b div 2 ^ k < 2 ^ (53 - k)"
  proof -
    have lt: "b < 2 ^ k * 2 ^ (53 - k)"
      using assms by (simp flip: power_add)
    show ?thesis
    proof (rule ccontr)
      assume "\<not> b div 2 ^ k < 2 ^ (53 - k)"
      then have "(2::int) ^ (53 - k) \<le> b div 2 ^ k" by simp
      then have "(2::int) ^ k * 2 ^ (53 - k) \<le> 2 ^ k * (b div 2 ^ k)"
        by (rule mult_left_mono) simp
      also have "\<dots> \<le> b"
      proof -
        define x y where "x = 2 ^ k * (b div 2 ^ k)" and "y = b mod 2 ^ k"
        have "b = x + y" "0 \<le> y" by (simp_all add: x_def y_def)
        then have "x \<le> b" by linarith
        then show ?thesis by (simp only: x_def)
      qed
      finally show False using lt by simp
    qed
  qed
  then have L: "bit_length \<lfloor>?q\<rfloor> \<le> 53 - k" using fl bit_length_le by simp
  define m where "m = 53 - bit_length \<lfloor>?q\<rfloor>"
  have mk: "k \<le> m" "0 < m" using L assms by (simp_all add: m_def)
  have e: "int (bit_length \<lfloor>?q\<rfloor>) - 53 = - int m" using L assms by (simp add: m_def)
  have "?q * 2 ^ m = of_int (b * 2 ^ (m - k))"
  proof -
    have "(2::rat) ^ m = 2 ^ k * 2 ^ (m - k)" using mk by (simp flip: power_add)
    then show ?thesis by simp
  qed
  then have r: "round_half_even (?q * 2 ^ m) = b * 2 ^ (m - k)"
    by (simp only: round_half_even_of_int)
  have "to_double ?q = of_int (round_half_even (?q * 2 ^ m)) / 2 ^ m"
    using mk by (simp add: to_double_def Let_def e del: of_int_mult of_int_power)
  also have "\<dots> = of_int (b * 2 ^ (m - k)) / 2 ^ m" by (simp only: r)
  also have "\<dots> = ?q"
  proof -
    have "(2::rat) ^ m = 2 ^ k * 2 ^ (m - k)" using mk by (simp flip: power_add)
    then show ?thesis by simp
  qed
  finally show ?thesis .
qed

lemma pow_le_of_bit_length:
  assumes "0 \<le> int (bit_length \<lfloor>q\<rfloor>) - 53"
  shows "(2::rat) ^ nat (int (bit_length \<lfloor>q\<rfloor>) - 53) \<le> q"
proof -
  let ?L = "bit_length \<lfloor>q\<rfloor>"
  have pos: "0 < \<lfloor>q\<rfloor>"
  proof (rule ccontr)
    assume "\<not> 0 < \<lfloor>q\<rfloor>"
    then have "?L = 0" by (simp add: bit_length.simps [of "\<lfloor>q\<rfloor>"])
    with assms show False by simp
  qed
  have "(2::int) ^ nat (int ?L - 53) \<le> 2 ^ (?L - 1)"
    by (rule power_increasing) (use assms in auto)
  also have "\<dots> \<le> \<lfloor>q\<rfloor>" using bit_length_lower [OF pos] .
  finally have "(2::int) ^ nat (int ?L - 53) \<le> \<lfloor>q\<rfloor>" .
  then have "of_int ((2::int) ^ nat (int ?L - 53)) \<le> (of_int \<lfloor>q\<rfloor> :: rat)"
    by (simp only: of_int_le_iff)
  also have "\<dots> \<le> q" by simp
  finally show ?thesis by simp
qed

lemma to_double_bounds:
  assumes "1 \<le> q"
  shows "to_double q \<le> 2 * q" and "q / 2 \<le> to_double q"
proof -
  let ?e = "int (bit_length \<lfloor>q\<rfloor>) - 53"
  have both: "to_double q \<le> 2 * q \<and> q / 2 \<le> to_double q"
  proof (cases "0 \<le> ?e")
    case True
    define n where "n = nat ?e"
    have td: "to_double q = of_int (round_half_even (q / 2 ^ n)) * 2 ^ n"
      using True by (simp add: to_double_def Let_def n_def)
    have p: "(2::rat) ^ n \<le> q" using pow_le_of_bit_length [OF True] by (simp add: n_def)
    have pp: "(0::rat) < 2 ^ n" by simp
    from round_half_even_bounds [of "q / 2 ^ n"]
    have "(q / 2 ^ n - 1 / 2) * 2 ^ n \<le> to_double q" "to_double q \<le> (q / 2 ^ n + 1 / 2) * 2 ^ n"
      unfolding td using pp by (simp_all only: mult_le_cancel_right_pos)
    then have "q - 2 ^ n / 2 \<le> to_double q" "to_double q \<le> q + 2 ^ n / 2"
      by (simp_all add: algebra_simps)
    with p show ?thesis by simp
  next
    case False
    define n where "n = nat (- ?e)"
    have td: "to_double q = of_int (round_half_even (q * 2 ^ n)) / 2 ^ n"
      using False by (simp add: to_double_def Let_def n_def)
    have pp: "(1::rat) \<le> 2 ^ n" by simp
    then have pp0: "(0::rat) < 2 ^ n" by simp
    define d :: rat where "d = (1 / 2) / 2 ^ n"
    have e1: "(q * 2 ^ n - 1 / 2) / 2 ^ n = q - d" and e2: "(q * 2 ^ n + 1 / 2) / 2 ^ n = q + d"
      using pp0 by (simp_all add: d_def diff_divide_distrib add_divide_distrib)
    from round_half_even_bounds [of "q * 2 ^ n"]
    have "(q * 2 ^ n - 1 / 2) / 2 ^ n \<le> to_double q" "to_double q \<le> (q * 2 ^ n + 1 / 2) / 2 ^ n"
      unfolding td using pp0 by (simp_all only: divide_le_cancel) auto
    then have a: "q - d \<le> to_double q" "to_double q \<le> q + d"
      by (simp_all only: e1 e2)
    have "d \<le> 1 / 2"
      using pp by (simp add: d_def field_simps)
    with a assms show ?thesis by linarith
  qed
  from both show "to_double q \<le> 2 * q" and "q / 2 \<le> to_double q" by simp_all
qed


lemma py_truediv_exact:
  assumes "0 \<le> b" "b < 2 ^ 53" "1 \<le> k" "k \<le> 53"
  shows "py_truediv b (2 ^ k) = Inr (of_int b / 2 ^ k)"
proof -
  have "of_int b / (2::rat) ^ k < 2 ^ 1024"
  proof -
    have "of_int b / (2::rat) ^ k \<le> of_int b" using assms(1) by (simp add: field_simps)
         (metis mult.right_neutral mult_left_mono of_int_0_le_iff one_le_numeral one_le_power)
    also have "\<dots> < of_int (2 ^ 53)" using assms(2) by (simp only: of_int_less_iff)
    also have "\<dots> \<le> (2::rat) ^ 1024" by simp
    finally show ?thesis .
  qed
  then show ?thesis
    using to_double_exact [OF assms] by (simp add: py_truediv_def Let_def)
qed

lemma py_truediv_in_range:
  assumes "2 ^ k \<le> b" "b < 2 ^ (1023 + k)"
  shows "\<exists>x. py_truediv b (2 ^ k) = Inr x"
proof -
  let ?q = "of_int b / 2 ^ k :: rat"
  have "of_int ((2::int) ^ k) \<le> (of_int b :: rat)" using assms(1) by (simp only: of_int_le_iff)
  then have q1: "1 \<le> ?q" by (simp add: field_simps)
  have "(of_int b :: rat) < of_int ((2::int) ^ (1023 + k))"
    using assms(2) by (simp only: of_int_less_iff)
  then have "?q < 2 ^ 1023" by (simp add: field_simps power_add)
  with to_double_bounds(1) [OF q1] have "to_double ?q < 2 ^ 1024" by simp
  then show ?thesis by (simp add: py_truediv_def Let_def)
qed

lemma to_double_ge_half: "1 \<le> q \<Longrightarrow> 2 * P \<le> q \<Longrightarrow> P \<le> to_double q"
  using to_double_bounds(2) [of q] by linarith

lemma py_truediv_overflow:
  assumes "2 ^ (1025 + k) \<le> b"
  shows "py_truediv b (2 ^ k)
           = Inl (OverflowError ''integer division result too large for a float'')"
proof -
  let ?q = "of_int b / 2 ^ k :: rat"
  have "of_int ((2::int) ^ (1025 + k)) \<le> (of_int b :: rat)"
    using assms by (simp only: of_int_le_iff)
  then have q: "2 ^ 1025 \<le> ?q" by (simp add: field_simps power_add)
  have "(1::rat) \<le> 2 ^ 1025" by (rule one_le_power) simp
  from this q have q1: "1 \<le> ?q" by (rule order_trans)
  define P :: rat where "P = 2 ^ 1024"
  have "2 * P \<le> ?q" using q by (simp add: P_def)
  with q1 have "P \<le> to_double ?q" by (rule to_double_ge_half)
  then have "2 ^ 1024 \<le> to_double ?q" by (simp only: P_def)
  then show ?thesis by (simp add: py_truediv_def Let_def)
qed

lemma to_double_1: "to_double 1 = 1"
  using to_double_exact [of 2 1] by simp

lemma py_repr_float_1: "py_repr_float 1 = ''1.0''"
proof -
  have d: "str_digits 1 = ''1''" by (simp add: str_digits.simps [of 1] digit_char_def)
  have p: "pick_digits 1 1 1 = Some 1"
    by (simp add: pick_digits_def scaled_def to_double_1)
  have "shortest_digits 1 1 1 17 = (1, 1)"
    using p by (simp add: numeral_eq_Suc)
  then show ?thesis
    by (simp add: py_repr_float_def d strip_zeros_def)
qed

lemma round_half_even_near:
  assumes "of_int z - 1 / 2 < q" "q < of_int z + 1 / 2"
  shows "round_half_even q = z"
proof (cases "of_int z \<le> q")
  case True
  then have "\<lfloor>q\<rfloor> = z" using assms by (intro floor_unique) linarith+
  then show ?thesis using assms by (simp add: round_half_even_def Let_def)
next
  case False
  then have "\<lfloor>q\<rfloor> = z - 1" using assms by (intro floor_unique) (simp, linarith)+
  then show ?thesis using assms False by (simp add: round_half_even_def Let_def)
qed

lemma py_round2_near_1:
  assumes "199 / 200 < x" "x < 201 / 200"
  shows "py_round2 x = 1"
proof -
  have "round_half_even (x * 100) = 100"
    by (rule round_half_even_near) (use assms in simp_all)
  then show ?thesis by (simp add: py_round2_def to_double_1)
qed

lemma py_round2_examples:
  "py_round2 (1025 / 1024) = 1" "py_round2 (1048577 / 1048576) = 1"
  "py_round2 (1073741825 / 1073741824) = 1"
  by (rule py_round2_near_1; simp)+

lemma str_int_examples: "str_int 1023 = ''1023''" "str_int 1024 = ''1024''"
  by code_simp+

section \<open>Listing a sub-directory\<close>

text \<open>
  C1. \<open>list_folder\<close> takes the global lock and, once every segment of the path has
  resolved to a folder, calls \<open>list\<close>, which waits for the same lock: the call, and
  with it the handler of \<open>GET /api/list/<path>\<close>, never returns. It returns only on
  the not-found path, with the error result.
\<close>

theorem list_folder_blocks:
  assumes "pan s = Some p"
  shows "(resolve (children bk) (parent_file_id p) (path_parts path) \<noteq> None \<longrightarrow>
            list_folder bk s path = None \<and> list_subfolder bk s path = None)
         \<and> (\<not> lock s \<and> resolve (children bk) (parent_file_id p) (path_parts path) = None \<longrightarrow>
            (\<exists>s'. list_folder bk s path = Some (Inr [(''error'', JString msg_not_found)], s')))"
proof -
  let ?s0 = "s\<lparr>lock := True\<rparr>"
  let ?w = "walk bk ?s0 (parent_file_id p) (path_parts path)"
  have p0: "pan ?s0 \<noteq> None" using assms by simp
  have res: "fst ?w = Inr (resolve (children bk) (parent_file_id p) (path_parts path))"
    using walk_result [OF p0] .
  have lk: "lock (snd ?w)" using walk_frame [of bk ?s0] by simp
  have pn: "pan (snd ?w) \<noteq> None" using walk_pan [of ?s0 p bk] assms by simp
  show ?thesis
  proof (cases "lock s")
    case True
    then show ?thesis by (simp add: list_folder_def list_subfolder_def acquire_def)
  next
    case False
    show ?thesis
    proof (cases "resolve (children bk) (parent_file_id p) (path_parts path)")
      case None
      with res obtain s1 where "?w = (Inr None, s1)" by (cases ?w) auto
      with False None assms show ?thesis
        by (simp add: list_folder_def acquire_def)
    next
      case (Some d)
      with res obtain s1 where w: "?w = (Inr (Some d), s1)" by (cases ?w) auto
      with lk pn have l1: "lock s1" and p1: "pan s1 \<noteq> None" by auto
      then obtain q where q: "pan s1 = Some q" by auto
      have "list_folder bk s path = None"
        using False assms w q l1
        by (simp add: list_folder_def acquire_def Let_def api_list_blocked)
      then show ?thesis using Some by (simp add: list_subfolder_def)
    qed
  qed
qed

theorem list_folder_blocks_witness:
  "pan demo_api = Some demo_pan
   \<and> resolve (children demo_backend) (parent_file_id demo_pan) (path_parts ''a/b'') \<noteq> None
   \<and> list_folder demo_backend demo_api ''a/b'' = None
   \<and> list_subfolder demo_backend demo_api ''a/b'' = None
   \<and> \<not> lock demo_api
   \<and> resolve (children demo_backend) (parent_file_id demo_pan) (path_parts ''a/x/b'') = None
   \<and> (\<exists>s'. list_folder demo_backend demo_api ''a/x/b''
              = Some (Inr [(''error'', JString msg_not_found)], s'))"
  using list_folder_blocks [of demo_api demo_pan demo_backend "''a/b''"]
        list_folder_blocks [of demo_api demo_pan demo_backend "''a/x/b''"]
  by (simp add: demo_api_def demo_pan_def demo_backend_def demo_tree_def)

section \<open>A segment that is not found\<close>

text \<open>
  C7. When the segments before the \<open>k+1\<close>-th resolve and that one names no folder of the
  directory reached (exact, case-sensitive name), \<open>list_folder\<close> and \<open>parsing\<close> return
  the not-found result at once: the client was asked for exactly \<open>k+1\<close> listings, those of
  the segments up to the failing one, and for none of a later segment. In \<open>parsing\<close> the
  folder segments are all but the last.
\<close>

theorem not_found_stops_walk:
  assumes "pan s = Some p" and "\<not> lock s"
    and "resolve (children bk) (parent_file_id p) (take k (path_parts path)) = Some d"
    and "find (\<lambda>it. Type it = 1 \<and> FileName it = path_parts path ! k) (children bk d) = None"
  shows "(k < length (path_parts path) \<longrightarrow>
            (\<exists>s'. list_folder bk s path = Some (Inr [(''error'', JString msg_not_found)], s')
               \<and> calls s' = calls s
                    @ map GetDir (visited (children bk) (parent_file_id p)
                                    (take (Suc k) (path_parts path)))
               \<and> length (calls s') = length (calls s) + Suc k))
       \<and> (Suc k < length (path_parts path) \<longrightarrow>
            (\<exists>s'. parsing bk s path = Some (Inr [(''error'', JString msg_not_found)], s')
               \<and> calls s' = calls s
                    @ map GetDir (visited (children bk) (parent_file_id p)
                                    (take (Suc k) (path_parts path)))
               \<and> length (calls s') = length (calls s) + Suc k))"
proof (intro conjI impI)
  let ?parts = "path_parts path"
  let ?s0 = "s\<lparr>lock := True\<rparr>"
  have p0: "pan ?s0 = Some p" using assms(1) by simp
  {
    assume k: "k < length ?parts"
    have len: "length (visited (children bk) (parent_file_id p) (take (Suc k) ?parts)) = Suc k"
      using visited_length_prefix [OF k assms(3,4)] .
    show "\<exists>s'. list_folder bk s path = Some (Inr [(''error'', JString msg_not_found)], s')
               \<and> calls s' = calls s
                    @ map GetDir (visited (children bk) (parent_file_id p) (take (Suc k) ?parts))
               \<and> length (calls s') = length (calls s) + Suc k"
      using walk_not_found [OF p0 k assms(3,4)] assms(1,2) len
      by (simp add: list_folder_def acquire_def release_def)
  }
  {
    assume k: "Suc k < length ?parts"
    let ?bl = "butlast ?parts"
    have kb: "k < length ?bl" using k by simp
    have tk: "take k ?bl = take k ?parts" using k by (simp add: take_butlast)
    have tk1: "take (Suc k) ?bl = take (Suc k) ?parts" using k by (simp add: take_butlast)
    have nk: "?bl ! k = ?parts ! k" using kb by (simp add: nth_butlast)
    have r: "resolve (children bk) (parent_file_id p) (take k ?bl) = Some d"
      using assms(3) tk by simp
    have f: "find (\<lambda>it. Type it = 1 \<and> FileName it = ?bl ! k) (children bk d) = None"
      using assms(4) nk by simp
    have len: "length (visited (children bk) (parent_file_id p) (take (Suc k) ?bl)) = Suc k"
      using visited_length_prefix [OF kb r f] .
    show "\<exists>s'. parsing bk s path = Some (Inr [(''error'', JString msg_not_found)], s')
               \<and> calls s' = calls s
                    @ map GetDir (visited (children bk) (parent_file_id p) (take (Suc k) ?parts))
               \<and> length (calls s') = length (calls s) + Suc k"
      using walk_not_found [OF p0 kb r f] assms(1,2) len tk1
      by (simp add: parsing_def acquire_def release_def)
  }
qed

theorem not_found_stops_walk_witness:
  "pan demo_api = Some demo_pan \<and> \<not> lock demo_api
   \<and> resolve (children demo_backend) (parent_file_id demo_pan) (take 1 (path_parts ''a/x/b''))
       = Some 1
   \<and> find (\<lambda>it. Type it = 1 \<and> FileName it = path_parts ''a/x/b'' ! 1)
        (children demo_backend 1) = None
   \<and> 1 < length (path_parts ''a/x/b'') \<and> Suc 1 < length (path_parts ''a/x/b'')
   \<and> (\<exists>s'. list_folder demo_backend demo_api ''a/x/b''
              = Some (Inr [(''error'', JString msg_not_found)], s')
          \<and> calls s' = [GetDir 0, GetDir 1])
   \<and> (\<exists>s'. parsing demo_backend demo_api ''a/x/b''
              = Some (Inr [(''error'', JString msg_not_found)], s')
          \<and> calls s' = [GetDir 0, GetDir 1])"
  using not_found_stops_walk [of demo_api demo_pan demo_backend 1 "''a/x/b''" 1]
  by (auto simp add: demo_api_def demo_pan_def demo_backend_def demo_tree_def)


text \<open>
  C10. After such a not-found result the cursor \<open>parent_file_id\<close> is the directory the
  segments before the failing one lead to, not the directory the call started from, and
  a following \<open>list\<close> (\<open>GET /api/list\<close>) shows that directory.
\<close>

theorem not_found_moves_cursor:
  assumes "pan s = Some p" and "\<not> lock s"
    and "resolve (children bk) (parent_file_id p) (take k (path_parts path)) = Some d"
    and "find (\<lambda>it. Type it = 1 \<and> FileName it = path_parts path ! k) (children bk d) = None"
  shows "(k < length (path_parts path) \<longrightarrow>
            (\<exists>s'. list_folder bk s path = Some (Inr [(''error'', JString msg_not_found)], s')
               \<and> pan s' = Some (p\<lparr>parent_file_id := d, pan_list := children bk d\<rparr>)
               \<and> map_option fst (api_list bk s') = Some (listing_of (children bk d))))
       \<and> (Suc k < length (path_parts path) \<longrightarrow>
            (\<exists>s'. parsing bk s path = Some (Inr [(''error'', JString msg_not_found)], s')
               \<and> pan s' = Some (p\<lparr>parent_file_id := d, pan_list := children bk d\<rparr>)
               \<and> map_option fst (api_list bk s') = Some (listing_of (children bk d))))"
proof (intro conjI impI)
  let ?parts = "path_parts path"
  let ?s0 = "s\<lparr>lock := True\<rparr>"
  let ?p' = "p\<lparr>parent_file_id := d, pan_list := children bk d\<rparr>"
  have p0: "pan ?s0 = Some p" using assms(1) by simp
  have al: "\<And>s'. pan s' = Some ?p' \<Longrightarrow> \<not> lock s' \<Longrightarrow>
              map_option fst (api_list bk s') = Some (listing_of (children bk d))"
    using api_list_free [of _ ?p' bk] by simp
  {
    assume k: "k < length ?parts"
    let ?s' = "release (snd (walk bk ?s0 (parent_file_id p) ?parts))"
    have w: "list_folder bk s path = Some (Inr [(''error'', JString msg_not_found)], ?s')"
      using walk_not_found [OF p0 k assms(3,4)] assms(1,2)
      by (simp add: list_folder_def acquire_def)
    have ps: "pan ?s' = Some ?p'" and lk: "\<not> lock ?s'"
      using walk_not_found [OF p0 k assms(3,4)] by (simp_all add: release_def)
    from w ps al [OF ps lk]
    show "\<exists>s'. list_folder bk s path = Some (Inr [(''error'', JString msg_not_found)], s')
               \<and> pan s' = Some ?p'
               \<and> map_option fst (api_list bk s') = Some (listing_of (children bk d))"
      by blast
  }
  {
    assume k: "Suc k < length ?parts"
    let ?bl = "butlast ?parts"
    have kb: "k < length ?bl" using k by simp
    have tk: "take k ?bl = take k ?parts" using k by (simp add: take_butlast)
    have nk: "?bl ! k = ?parts ! k" using kb by (simp add: nth_butlast)
    have r: "resolve (children bk) (parent_file_id p) (take k ?bl) = Some d"
      using assms(3) tk by simp
    have f: "find (\<lambda>it. Type it = 1 \<and> FileName it = ?bl ! k) (children bk d) = None"
      using assms(4) nk by simp
    let ?s' = "release (snd (walk bk ?s0 (parent_file_id p) ?bl))"
    have w: "parsing bk s path = Some (Inr [(''error'', JString msg_not_found)], ?s')"
      using walk_not_found [OF p0 kb r f] assms(1,2)
      by (simp add: parsing_def acquire_def)
    have ps: "pan ?s' = Some ?p'" and lk: "\<not> lock ?s'"
      using walk_not_found [OF p0 kb r f] by (simp_all add: release_def)
    from w ps al [OF ps lk]
    show "\<exists>s'. parsing bk s path = Some (Inr [(''error'', JString msg_not_found)], s')
               \<and> pan s' = Some ?p'
               \<and> map_option fst (api_list bk s') = Some (listing_of (children bk d))"
      by blast
  }
qed

theorem not_found_moves_cursor_witness:
  "pan demo_api = Some demo_pan \<and> \<not> lock demo_api
   \<and> resolve (children demo_backend) (parent_file_id demo_pan) (take 1 (path_parts ''a/x/b''))
       = Some 1
   \<and> find (\<lambda>it. Type it = 1 \<and> FileName it = path_parts ''a/x/b'' ! 1)
        (children demo_backend 1) = None
   \<and> 1 < length (path_parts ''a/x/b'') \<and> Suc 1 < length (path_parts ''a/x/b'')
   \<and> parent_file_id demo_pan = 0
   \<and> (\<exists>s'. list_folder demo_backend demo_api ''a/x/b''
              = Some (Inr [(''error'', JString msg_not_found)], s')
          \<and> map_option parent_file_id (pan s') = Some 1
          \<and> map_option fst (api_list demo_backend s') = Some (listing_of (demo_tree 1)))
   \<and> (\<exists>s'. parsing demo_backend demo_api ''a/x/b''
              = Some (Inr [(''error'', JString msg_not_found)], s')
          \<and> map_option parent_file_id (pan s') = Some 1
          \<and> map_option fst (api_list demo_backend s') = Some (listing_of (demo_tree 1)))"
  using not_found_moves_cursor [of demo_api demo_pan demo_backend 1 "''a/x/b''" 1]
  by (auto simp add: demo_api_def demo_pan_def demo_backend_def demo_tree_def)

section \<open>Sharing\<close>




section \<open>Paths without segments\<close>



section \<open>Resolving the same path twice\<close>

text \<open>
  C4, as stated: two successive resolutions of the same path. \<open>list_folder\<close> does not
  return from a resolution that succeeds, so there is no second one. \<open>parsing\<close> starts
  from the cursor and leaves it in the directory of the file, so the second call for
  \<open>a/f.txt\<close> looks for the folder \<open>a\<close> inside \<open>a\<close> and fails where the first succeeded.
\<close>

theorem parsing_twice_differs:
  "list_folder demo_backend demo_api ''a/b'' = None
   \<and> map_option fst (parsing demo_backend demo_api ''a/f.txt'')
     = Some (Inr [(''url'', JString ''https://example.invalid/download'')])
   \<and> map_option (pan \<circ> snd) (parsing demo_backend demo_api ''a/f.txt'')
       = Some (Some (demo_pan\<lparr>parent_file_id := 1, pan_list := demo_tree 1\<rparr>))
   \<and> map_option fst
        (parsing demo_backend (snd (the (parsing demo_backend demo_api ''a/f.txt''))) ''a/f.txt'')
       = Some (Inr [(''error'', JString msg_not_found)])"
  by (simp add: list_folder_def api_list_blocked parsing_def acquire_def release_def
        get_dir_def find_folder_by_name_def demo_api_def demo_pan_def demo_backend_def
        demo_tree_def)

text \<open>
  C4, amended. For a fixed tree, the walk from a given starting directory gives the same
  outcome when it is run again on the session the first run left, from the same starting
  directory; \<open>_validate_default_path\<close>, which always starts at the root, gives the same
  outcome when run twice in succession.
\<close>

theorem resolution_same_start:
  "fst (walk bk (snd (walk bk s d parts)) d parts) = fst (walk bk s d parts)
   \<and> fst (validate_default_path bk (snd (validate_default_path bk s)))
       = fst (validate_default_path bk s)"
proof
  show w: "fst (walk bk (snd (walk bk s d parts)) d parts) = fst (walk bk s d parts)"
    for s d parts
  proof (cases "pan s")
    case None
    then show ?thesis by (simp add: walk_pan_None)
  next
    case (Some p)
    then have "pan s \<noteq> None" by simp
    from walk_result [OF this] walk_result [OF walk_after_walk [OF this]]
    show ?thesis by simp
  qed
  let ?dp = "cfg_default_path (config s)"
  show "fst (validate_default_path bk (snd (validate_default_path bk s)))
          = fst (validate_default_path bk s)"
  proof (cases "\<exists>path. ?dp = JString path \<and> path \<noteq> []")
    case True
    then obtain path where dp: "?dp = JString path" "path \<noteq> []" by blast
    let ?w = "walk bk s 0 (path_parts path)"
    have s1: "snd (validate_default_path bk s) = snd ?w"
      using dp by (simp add: validate_default_path_def split: prod.splits sum.splits option.splits)
    have c1: "config (snd ?w) = config s" using walk_frame by blast
    have f: "fst (validate_default_path bk t) =
               (case fst (walk bk t 0 (path_parts path)) of
                  Inl e \<Rightarrow> Inl e
                | Inr None \<Rightarrow> Inl (Exception msg_bad_root)
                | Inr (Some c) \<Rightarrow> Inr ())"
      if "config t = config s" for t
      using dp that
      by (simp add: validate_default_path_def split: prod.splits sum.splits option.splits)
    show ?thesis
      using f [of s] f [of "snd ?w"] c1 s1 w [of s 0 "path_parts path"] by simp
  next
    case False
    then have "snd (validate_default_path bk s) = s"
      by (cases ?dp) (auto simp add: validate_default_path_def Let_def)
    then show ?thesis by simp
  qed
qed


section \<open>Failed login\<close>

text \<open>
  C2, amended. When the client returns a status other than 200, \<open>login\<close> raises an
  exception whose text ends with that status, and the handle installed afterwards is the
  one \<open>login\<close> has just constructed from the configuration, as the failed sign-in left it.
\<close>

theorem login_failure_installs_new_handle:
  assumes "\<not> lock s" and "attempt_status bk (config s) \<noteq> 200"
  shows "\<exists>s'. login bk s =
                Some (Inl (Exception (msg_login_failed @ str_int (attempt_status bk (config s)))),
                      s')
            \<and> pan s' = Some (attempt_handle bk (config s))"
  using login_failure [OF assms] by simp

theorem login_failure_installs_new_handle_witness:
  "\<not> lock demo_api \<and> attempt_status demo_backend (config demo_api) \<noteq> 200
   \<and> (\<exists>s'. login demo_backend demo_api
              = Some (Inl (Exception (msg_login_failed @ ''401'')), s')
          \<and> pan s' = Some \<lparr>user_name = JString ''u'', password = JString ''pw'',
                            authorization = JString [], parent_file_id = 0, pan_list = []\<rparr>)"
  using login_failure_installs_new_handle [of demo_api demo_backend]
  by (simp add: demo_fields demo_attempt str_int_401)

text \<open>
  C2, as stated: the handle installed before the call does not stay. In the demo session
  it held the listing of the root and the token \<open>T1\<close>; after the failed login the
  installed handle is the new one.
\<close>

theorem login_failure_replaces_handle:
  "attempt_status demo_backend (config demo_api) = 401
   \<and> map_option fst (login demo_backend demo_api)
       = Some (Inl (Exception (msg_login_failed @ ''401'')))
   \<and> pan demo_api = Some demo_pan
   \<and> map_option (pan \<circ> snd) (login demo_backend demo_api)
       = Some (Some \<lparr>user_name = JString ''u'', password = JString ''pw'',
                      authorization = JString [], parent_file_id = 0, pan_list = []\<rparr>)
   \<and> map_option (pan \<circ> snd) (login demo_backend demo_api) \<noteq> Some (pan demo_api)"
proof -
  have a: "\<not> lock demo_api" "attempt_status demo_backend (config demo_api) \<noteq> 200"
    by (simp_all add: demo_api_def demo_attempt)
  note l = login_failure [OF a]
  show ?thesis
    unfolding l
    by (simp add: str_int_401 demo_api_def demo_attempt demo_pan_def demo_tree_def)
qed

text \<open>
  C3. A call of \<open>login\<close> that the client answers with a status other than 200 raises
  before the token is copied and before the configuration is saved: the settings file,
  and the authorization token in it, are left as they were when the call began, and so
  is the configuration. The handler of \<open>POST /api/login\<close> then answers 401; when the
  request carries no username and password pair, the settings file after the request is
  the one before it.
\<close>

theorem failed_login_keeps_settings:
  assumes "\<not> lock s" and "attempt_status bk (config s) \<noteq> 200"
  shows "(\<exists>e s'. login bk s = Some (Inl e, s') \<and> disk s' = disk s \<and> config s' = config s
            \<and> persisted_authorization (disk s') = persisted_authorization (disk s))
       \<and> (\<not> (truthy (dict_get data ''username'') \<and> truthy (dict_get data ''password'')) \<longrightarrow>
            (\<exists>r s'. login_handler bk s (Inr (JObject data)) = Some (Inr r, s')
               \<and> status r = 401 \<and> disk s' = disk s
               \<and> persisted_authorization (disk s') = persisted_authorization (disk s)))"
proof (intro conjI impI)
  from login_failure [OF assms]
  show "\<exists>e s'. login bk s = Some (Inl e, s') \<and> disk s' = disk s \<and> config s' = config s
            \<and> persisted_authorization (disk s') = persisted_authorization (disk s)"
    by simp
next
  assume "\<not> (truthy (dict_get data ''username'') \<and> truthy (dict_get data ''password''))"
  with login_failure [OF assms]
  show "\<exists>r s'. login_handler bk s (Inr (JObject data)) = Some (Inr r, s')
               \<and> status r = 401 \<and> disk s' = disk s
               \<and> persisted_authorization (disk s') = persisted_authorization (disk s)"
    by (auto simp add: login_handler_def)
qed

theorem failed_login_keeps_settings_witness:
  "\<not> lock demo_api \<and> attempt_status demo_backend (config demo_api) \<noteq> 200
   \<and> \<not> (truthy (dict_get [] ''username'') \<and> truthy (dict_get [] ''password''))
   \<and> (\<exists>e s'. login demo_backend demo_api = Some (Inl e, s') \<and> disk s' = Dumped demo_config
          \<and> persisted_authorization (disk s') = Some (JString ''T1''))
   \<and> (\<exists>r s'. login_handler demo_backend demo_api (Inr (JObject [])) = Some (Inr r, s')
          \<and> status r = 401 \<and> disk s' = Dumped demo_config
          \<and> persisted_authorization (disk s') = Some (JString ''T1''))"
  using failed_login_keeps_settings [of demo_api demo_backend "[]"]
  by (auto simp add: demo_fields demo_attempt demo_saved dict_get_def)

section \<open>Loading the configuration\<close>

text \<open>
  C8. A settings file whose content is valid JSON but not an object makes
  \<open>_load_config\<close> raise: \<open>dict.update\<close> of \<open>null\<close> or of a number is a TypeError, which
  the \<open>except json.JSONDecodeError\<close> does not catch, and neither is the error of a file
  that is not UTF-8. \<open>__init__\<close> then fails and the process does not start. A missing
  file, undecodable JSON and an object load without an error.
\<close>

theorem load_config_null_fails:
  "load_config (Some (Decoded JNull))
     = Inl (TypeError ([CHR 0x27] @ ''NoneType'' @ [CHR 0x27] @ '' object is not iterable''))
   \<and> init bk (Some (Decoded JNull))
       = Some (Inl (TypeError ([CHR 0x27] @ ''NoneType'' @ [CHR 0x27]
                                 @ '' object is not iterable'')))
   \<and> load_config (Some (Decoded (JInt 5)))
       = Inl (TypeError ([CHR 0x27] @ ''int'' @ [CHR 0x27] @ '' object is not iterable''))
   \<and> load_config (Some (NotUtf8 m)) = Inl (UnicodeDecodeError m)
   \<and> load_config None = Inr default_config
   \<and> load_config (Some JSONDecodeError) = Inr default_config
   \<and> load_config (Some (Decoded (JObject [(''user'', JString ''u'')])))
       = Inr (default_config\<lparr>cfg_user := JString ''u''\<rparr>)"
  by (simp add: load_config_def init_def not_iterable_def set_item_def)

section \<open>Formatting a size\<close>

text \<open>
  C6, amended. \<open>_format_size\<close> is a function of the size alone, with strict thresholds:
  up to 1024 the size is printed in bytes, above 1024 and up to 1048576 in KB, above that
  and up to 1073741824 in MB, above that in GB, the quotient rounded to two decimals;
  below \<open>2^53\<close> the quotient is exact. The GB branch covers every size below \<open>2^1053\<close>;
  from \<open>2^1055\<close> on the division raises OverflowError.
\<close>

theorem format_size_thresholds:
  "(b \<le> 1024 \<longrightarrow> format_size b = Inr (str_int b @ ''B''))
   \<and> (1024 < b \<and> b \<le> 1048576 \<longrightarrow>
        format_size b = Inr (py_repr_float (py_round2 (of_int b / 1024)) @ ''KB''))
   \<and> (1048576 < b \<and> b \<le> 1073741824 \<longrightarrow>
        format_size b = Inr (py_repr_float (py_round2 (of_int b / 1048576)) @ ''MB''))
   \<and> (1073741824 < b \<and> b < 2 ^ 53 \<longrightarrow>
        format_size b = Inr (py_repr_float (py_round2 (of_int b / 1073741824)) @ ''GB''))
   \<and> (1073741824 < b \<and> b < 2 ^ 1053 \<longrightarrow>
        (\<exists>x. py_truediv b 1073741824 = Inr x
           \<and> format_size b = Inr (py_repr_float (py_round2 x) @ ''GB'')))
   \<and> (2 ^ 1055 \<le> b \<longrightarrow>
        format_size b = Inl (OverflowError ''integer division result too large for a float''))"
proof (intro conjI impI)
  show "format_size b = Inl (OverflowError ''integer division result too large for a float'')"
    if "2 ^ 1055 \<le> b"
  proof -
    have "py_truediv b (2 ^ 30)
            = Inl (OverflowError ''integer division result too large for a float'')"
      by (rule py_truediv_overflow) (use that in simp)
    moreover have "(1073741824::int) < 2 ^ 1055" by simp
    ultimately show ?thesis using that by (simp add: format_size_def fmt_rounded_def)
  qed
  show "format_size b = Inr (str_int b @ ''B'')" if "b \<le> 1024"
    using that by (simp add: format_size_def)
  show "format_size b = Inr (py_repr_float (py_round2 (of_int b / 1024)) @ ''KB'')"
    if "1024 < b \<and> b \<le> 1048576"
  proof -
    have "py_truediv b (2 ^ 10) = Inr (of_int b / 2 ^ 10)"
      by (rule py_truediv_exact) (use that in auto)
    then show ?thesis using that by (simp add: format_size_def fmt_rounded_def)
  qed
  show "format_size b = Inr (py_repr_float (py_round2 (of_int b / 1048576)) @ ''MB'')"
    if "1048576 < b \<and> b \<le> 1073741824"
  proof -
    have "py_truediv b (2 ^ 20) = Inr (of_int b / 2 ^ 20)"
      by (rule py_truediv_exact) (use that in auto)
    then show ?thesis using that by (simp add: format_size_def fmt_rounded_def)
  qed
  show "format_size b = Inr (py_repr_float (py_round2 (of_int b / 1073741824)) @ ''GB'')"
    if "1073741824 < b \<and> b < 2 ^ 53"
  proof -
    have "py_truediv b (2 ^ 30) = Inr (of_int b / 2 ^ 30)"
      by (rule py_truediv_exact) (use that in auto)
    then show ?thesis using that by (simp add: format_size_def fmt_rounded_def)
  qed
  show "\<exists>x. py_truediv b 1073741824 = Inr x
           \<and> format_size b = Inr (py_repr_float (py_round2 x) @ ''GB'')"
    if "1073741824 < b \<and> b < 2 ^ 1053"
  proof -
    have "\<exists>x. py_truediv b (2 ^ 30) = Inr x"
      by (rule py_truediv_in_range) (use that in auto)
    then obtain x where "py_truediv b 1073741824 = Inr x" by auto
    then show ?thesis using that by (simp add: format_size_def fmt_rounded_def)
  qed
qed

text \<open>The values the specification lists, each obtained from the theorem above.\<close>

theorem format_size_thresholds_witness:
  "(1023::int) \<le> 1024 \<and> format_size 1023 = Inr ''1023B''
   \<and> (1024::int) \<le> 1024 \<and> format_size 1024 = Inr ''1024B''
   \<and> (1024::int) < 1025 \<and> (1025::int) \<le> 1048576 \<and> format_size 1025 = Inr ''1.0KB''
   \<and> (1048576::int) < 1048577 \<and> (1048577::int) \<le> 1073741824
   \<and> format_size 1048577 = Inr ''1.0MB''
   \<and> (1073741824::int) < 1073741825 \<and> (1073741825::int) < 2 ^ 53
   \<and> format_size 1073741825 = Inr ''1.0GB''"
  using format_size_thresholds [of 1023] format_size_thresholds [of 1024]
        format_size_thresholds [of 1025] format_size_thresholds [of 1048577]
        format_size_thresholds [of 1073741825]
  by (simp add: py_round2_examples py_repr_float_1 str_int_examples)


text \<open>
  C6, as stated: not every non-negative size above 1073741824 is rendered in GB. For
  \<open>2^1100\<close> the quotient is beyond the largest double and \<open>size / 1073741824\<close> raises.
\<close>

theorem format_size_overflow:
  "format_size (2 ^ 1100)
     = Inl (OverflowError ''integer division result too large for a float'')"
proof -
  have "py_truediv (2 ^ 1100) (2 ^ 30)
          = Inl (OverflowError ''integer division result too large for a float'')"
    by (rule py_truediv_overflow) simp
  then show ?thesis by (simp add: format_size_def fmt_rounded_def)
qed



end
